theory Spec2Isabelle
  imports Complex_Main
begin

section \<open>Data model of the generator component\<close>

text \<open>
  The string-literal union types of \<^verbatim>\<open>src/components/Generator.tsx\<close> become datatypes,
  one constructor per literal. JavaScript numbers are modelled as exact rationals: every
  arithmetic operation below is the one of the source, without the rounding of IEEE
  doubles. Where the source rounds to an integer (\<^verbatim>\<open>Math.ceil\<close>, \<^verbatim>\<open>Math.floor\<close>)
  the result is an \<^typ>\<open>int\<close>.
\<close>

datatype DotStyle =
  DotSquare | DotRounded | DotDots | DotExtraRounded | DotClassy | DotClassyInverted
  | DotDiamond | DotCross

datatype EyeStyle = EyeSquare | EyeCircle | EyeRounded | EyeLeaf

datatype ColorMode = ModeSolid | ModeGradient

datatype GradientType = GradVertical | GradHorizontal | GradDiagonal | GradRadial

datatype QRContentType = ContentText | ContentUrl | ContentWifi | ContentEmail | ContentVcard

datatype LogoShape = ShapeNone | ShapeCircle | ShapeRounded | ShapeSquare

datatype ErrorLevel = LevelL | LevelM | LevelQ | LevelH

datatype LabelPosition = PosTop | PosBottom

datatype Encryption = WPA | WEP | nopass

record WifiData =
  ssid :: string
  password :: string
  encryption :: Encryption
  hidden :: bool

record EmailData =
  email :: string
  subject :: string
  body :: string

record VcardData =
  firstName :: string
  lastName :: string
  phone :: string
  vcardEmail :: string
  org :: string
  title :: string
  url :: string

text \<open>
  The React state of the component, one field per \<^verbatim>\<open>useState\<close> cell that the modelled
  functions read or write. The cell \<^verbatim>\<open>text\<close> is the field \<open>textValue\<close>. The cell
  \<^verbatim>\<open>logo\<close> is \<^verbatim>\<open>string | null\<close>, hence an option.
\<close>

record ContentState =
  contentType :: QRContentType
  textValue :: string
  urlValue :: string
  wifiData :: WifiData
  emailData :: EmailData
  vcardData :: VcardData

record StyleState =
  fgColorMode :: ColorMode
  fgColor1 :: string
  fgColor2 :: string
  fgGradientType :: GradientType
  bgColorMode :: ColorMode
  bgColor1 :: string
  bgColor2 :: string
  bgGradientType :: GradientType
  dotStyle :: DotStyle
  eyeStyle :: EyeStyle

record LabelState =
  labelText :: string
  labelPosition :: LabelPosition
  labelColor :: string
  labelSize :: rat
  labelFont :: string

record GeneratorState =
  content :: ContentState
  style :: StyleState
  label :: LabelState
  errorLevel :: ErrorLevel
  logo :: "string option"
  logoShape :: LogoShape
  qrSize :: rat
  generatedBase64 :: string

section \<open>Fill styles\<close>

text \<open>
  \<^verbatim>\<open>getFillStyle\<close> returns either the colour string \<^verbatim>\<open>c1\<close> or a canvas gradient object.
  A gradient is recorded by the arguments of the call that creates it and its two colour
  stops (at 0 and at 1).
\<close>

datatype FillStyle =
  Color string
  | LinearGradient rat rat rat rat string string
  | RadialGradient rat rat rat rat rat rat string string

definition getFillStyle ::
  "rat \<Rightarrow> rat \<Rightarrow> ColorMode \<Rightarrow> GradientType \<Rightarrow> string \<Rightarrow> string \<Rightarrow> FillStyle" where
  "getFillStyle width height mode type c1 c2 =
     (if mode = ModeSolid then Color c1
      else if type = GradVertical then LinearGradient 0 0 0 height c1 c2
      else if type = GradHorizontal then LinearGradient 0 0 width 0 c1 c2
      else if type = GradDiagonal then LinearGradient 0 0 width height c1 c2
      else RadialGradient (width / 2) (height / 2) (width / 10) (width / 2) (height / 2)
             (max width height * (8 / 10)) c1 c2)"

section \<open>Logo upload and removal\<close>

text \<open>
  \<^verbatim>\<open>logo\<close> is truthy when it is a non-empty string.
\<close>

definition hasLogo :: "GeneratorState \<Rightarrow> bool" where
  "hasLogo st = (case logo st of None \<Rightarrow> False | Some s \<Rightarrow> s \<noteq> [])"

text \<open>
  \<^verbatim>\<open>handleLogoUpload\<close> runs when a file is picked. With a file it starts a
  \<^verbatim>\<open>FileReader\<close> and installs the \<^verbatim>\<open>onload\<close> callback; without one it does nothing. The
  callback is a closure of the render in which the file was picked: the \<^verbatim>\<open>errorLevel\<close>
  it tests is the level of that render, while \<^verbatim>\<open>setLogo\<close> and \<^verbatim>\<open>setErrorLevel\<close> act on
  the state at the time the read completes. \<open>readerOnload\<close> therefore takes the captured
  level apart from the state it updates, and \<open>handleLogoUpload\<close> returns the installed
  callback (\<open>None\<close> without a file). The callback runs only when the read succeeds,
  with the data URL of the file.
\<close>

definition readerOnload :: "ErrorLevel \<Rightarrow> string \<Rightarrow> GeneratorState \<Rightarrow> GeneratorState" where
  "readerOnload capturedLevel result st =
     (let st1 = st\<lparr>logo := Some result\<rparr>
      in if capturedLevel = LevelL \<or> capturedLevel = LevelM
         then st1\<lparr>errorLevel := LevelH\<rparr> else st1)"

definition handleLogoUpload ::
  "bool \<Rightarrow> GeneratorState \<Rightarrow> (string \<Rightarrow> GeneratorState \<Rightarrow> GeneratorState) option" where
  "handleLogoUpload fileChosen st =
     (if fileChosen then Some (readerOnload (errorLevel st)) else None)"

text \<open>
  The \<^verbatim>\<open>onChange\<close> handler of the error-correction select. The select is disabled while
  a logo is set, and a disabled select reports no change.
\<close>

definition selectErrorLevel :: "ErrorLevel \<Rightarrow> GeneratorState \<Rightarrow> GeneratorState" where
  "selectErrorLevel level st = (if hasLogo st then st else st\<lparr>errorLevel := level\<rparr>)"

text \<open>The \<^verbatim>\<open>onClick\<close> handler of the remove-logo button.\<close>

definition removeLogoClick :: "GeneratorState \<Rightarrow> GeneratorState" where
  "removeLogoClick st = st\<lparr>logo := None, errorLevel := LevelM\<rparr>"

text \<open>The initial values of the state cells, as the \<^verbatim>\<open>useState\<close> calls give them.\<close>

definition initialState :: GeneratorState where
  "initialState =
     \<lparr>content =
        \<lparr>contentType = ContentText, textValue = [], urlValue = [],
         wifiData = \<lparr>ssid = [], password = [], encryption = WPA, hidden = False\<rparr>,
         emailData = \<lparr>email = [], subject = [], body = []\<rparr>,
         vcardData = \<lparr>firstName = [], lastName = [], phone = [], vcardEmail = [],
                      org = [], title = [], url = []\<rparr>\<rparr>,
      style =
        \<lparr>fgColorMode = ModeSolid, fgColor1 = ''#000000'', fgColor2 = ''#a3e635'',
         fgGradientType = GradVertical,
         bgColorMode = ModeSolid, bgColor1 = ''#ffffff'', bgColor2 = ''#e2e8f0'',
         bgGradientType = GradDiagonal,
         dotStyle = DotSquare, eyeStyle = EyeSquare\<rparr>,
      label =
        \<lparr>labelText = [], labelPosition = PosBottom, labelColor = ''#000000'',
         labelSize = 60, labelFont = ''Inter, sans-serif''\<rparr>,
      errorLevel = LevelM, logo = None, logoShape = ShapeRounded, qrSize = 1000,
      generatedBase64 = []\<rparr>"

section \<open>Content templates\<close>

text \<open>
  The template effect rebuilds the cell \<^verbatim>\<open>text\<close> from the template data. In text mode
  it returns before \<^verbatim>\<open>setText\<close>. A template literal prints a boolean as \<^verbatim>\<open>true\<close> or
  \<^verbatim>\<open>false\<close> and the encryption as its own name. \<^verbatim>\<open>encodeURIComponent\<close> is a function of
  the platform and is a parameter here. A string is truthy when it is not empty.
\<close>

definition showBool :: "bool \<Rightarrow> string" where
  "showBool b = (if b then ''true'' else ''false'')"

fun encryptionName :: "Encryption \<Rightarrow> string" where
  "encryptionName WPA = ''WPA''"
| "encryptionName WEP = ''WEP''"
| "encryptionName nopass = ''nopass''"

definition newline :: string where
  "newline = [CHR 0x0A]"

definition wifiText :: "WifiData \<Rightarrow> string" where
  "wifiText w =
     (if ssid w = [] then []
      else (let enc = (if encryption w = nopass then [] else encryptionName (encryption w))
            in ''WIFI:T:'' @ enc @ '';S:'' @ ssid w @ '';P:'' @ password w @
               '';H:'' @ showBool (hidden w) @ '';;''))"

definition emailText :: "(string \<Rightarrow> string) \<Rightarrow> EmailData \<Rightarrow> string" where
  "emailText encodeURIComponent e =
     (if email e = [] then []
      else ''mailto:'' @ email e @ ''?subject='' @ encodeURIComponent (subject e) @
           ''&body='' @ encodeURIComponent (body e))"

definition vcardText :: "VcardData \<Rightarrow> string" where
  "vcardText v =
     (if firstName v = [] \<and> lastName v = [] \<and> vcardEmail v = [] \<and> phone v = [] then []
      else ''BEGIN:VCARD'' @ newline @ ''VERSION:3.0'' @ newline @
           ''N:'' @ lastName v @ '';'' @ firstName v @ '';;;'' @ newline @
           ''FN:'' @ firstName v @ '' '' @ lastName v @ newline @
           ''ORG:'' @ org v @ newline @
           ''TITLE:'' @ title v @ newline @
           ''TEL:'' @ phone v @ newline @
           ''EMAIL:'' @ vcardEmail v @ newline @
           ''URL:'' @ url v @ newline @
           ''END:VCARD'')"

definition setText :: "string \<Rightarrow> GeneratorState \<Rightarrow> GeneratorState" where
  "setText t st = st\<lparr>content := (content st)\<lparr>textValue := t\<rparr>\<rparr>"

definition templateEffect :: "(string \<Rightarrow> string) \<Rightarrow> GeneratorState \<Rightarrow> GeneratorState" where
  "templateEffect encodeURIComponent st =
     (case contentType (content st) of
        ContentText \<Rightarrow> st
      | ContentUrl \<Rightarrow> setText (urlValue (content st)) st
      | ContentWifi \<Rightarrow> setText (wifiText (wifiData (content st))) st
      | ContentEmail \<Rightarrow> setText (emailText encodeURIComponent (emailData (content st))) st
      | ContentVcard \<Rightarrow> setText (vcardText (vcardData (content st))) st)"

section \<open>Geometry of the rendering\<close>

text \<open>
  The constants and the derived lengths of \<^verbatim>\<open>generateQR\<close>; its local \<^verbatim>\<open>size\<close> is \<open>outSize\<close> here. The module count is the side
  of the matrix the encoder returns, a natural number, so the divisor of the cell size is
  at least 4.
\<close>

definition margin :: rat where
  "margin = 2"

definition logoSize :: rat where
  "logoSize = 25"

definition cellSizeOf :: "rat \<Rightarrow> nat \<Rightarrow> rat" where
  "cellSizeOf outSize moduleCount = outSize / (of_nat moduleCount + margin * 2)"

definition scaleFactor :: "GeneratorState \<Rightarrow> rat" where
  "scaleFactor st = qrSize st / 1000"

definition renderLabelSize :: "GeneratorState \<Rightarrow> rat" where
  "renderLabelSize st = labelSize (label st) * scaleFactor st"

definition extraHeight :: "GeneratorState \<Rightarrow> rat" where
  "extraHeight st = (if labelText (label st) = [] then 0 else renderLabelSize st * (5 / 2))"

definition totalWidth :: "GeneratorState \<Rightarrow> rat" where
  "totalWidth st = qrSize st"

definition totalHeight :: "GeneratorState \<Rightarrow> rat" where
  "totalHeight st = qrSize st + extraHeight st"

definition qrOffsetY :: "GeneratorState \<Rightarrow> rat" where
  "qrOffsetY st =
     (if labelText (label st) = [] then 0
      else if labelPosition (label st) = PosTop then extraHeight st else 0)"

text \<open>The pixel position a module of column \<open>c\<close> and row \<open>r\<close> is drawn at.\<close>

definition moduleX :: "rat \<Rightarrow> rat \<Rightarrow> nat \<Rightarrow> rat" where
  "moduleX offset cellSize c = offset + of_nat c * cellSize"

definition moduleY :: "rat \<Rightarrow> rat \<Rightarrow> rat \<Rightarrow> nat \<Rightarrow> rat" where
  "moduleY qrOffY offset cellSize r = qrOffY + offset + of_nat r * cellSize"

section \<open>The logo exclusion zone\<close>

text \<open>
  Without a logo the bounds stay at \<open>-1\<close>. With one they are rounded from the centre and
  the adjusted size. When the cell size is 0 the quotient is \<^verbatim>\<open>NaN\<close> or infinite in
  JavaScript and so are the bounds: the result is \<open>None\<close> then.
\<close>

definition adjustedSizeOf :: "int \<Rightarrow> int" where
  "adjustedSizeOf logoModuleSize =
     (if logoModuleSize mod 2 = 0 then logoModuleSize + 1 else logoModuleSize)"

definition logoBounds :: "bool \<Rightarrow> nat \<Rightarrow> rat \<Rightarrow> rat \<Rightarrow> (int \<times> int) option" where
  "logoBounds withLogo moduleCount outSize cellSize =
     (if withLogo then
        (if cellSize = 0 then None
         else (let logoScale = logoSize / 100;
                   center = (of_nat moduleCount :: rat) / 2;
                   logoModuleSize = \<lceil>(outSize * logoScale) / cellSize\<rceil>;
                   adjustedSize = adjustedSizeOf logoModuleSize
               in Some (\<lfloor>center - of_int adjustedSize / 2\<rfloor>,
                        \<lceil>center + of_int adjustedSize / 2\<rceil>)))
      else Some (- 1, - 1))"

section \<open>The data-module loop\<close>

text \<open>
  The module matrix of the encoder: its side and its read access. The loop visits the
  rows and, in each row, the columns from 0 up to the side. A module under the logo zone
  is skipped, then a module in a finder zone, and a module that is set is drawn. The
  trace of the loop is the list of its \<^verbatim>\<open>drawModule\<close> calls, each with the index it
  was issued for and its pixel position. Non-finite logo bounds arise in \<^verbatim>\<open>generateQR\<close>
  only as \<^verbatim>\<open>NaN\<close> (output size 0), and every comparison with \<^verbatim>\<open>NaN\<close> is false.
\<close>

record BitMatrix =
  bmSize :: nat
  bmGet :: "nat \<Rightarrow> nat \<Rightarrow> bool"

record ModuleCall =
  row :: nat
  col :: nat
  px :: rat
  py :: rat

definition inLogoZone :: "bool \<Rightarrow> (int \<times> int) option \<Rightarrow> nat \<Rightarrow> nat \<Rightarrow> bool" where
  "inLogoZone withLogo bounds r c =
     (withLogo \<and>
      (case bounds of
         None \<Rightarrow> False
       | Some (logoStart, logoEnd) \<Rightarrow>
           logoStart \<le> int r \<and> int r < logoEnd \<and> logoStart \<le> int c \<and> int c < logoEnd))"

definition isFinderPattern :: "nat \<Rightarrow> nat \<Rightarrow> nat \<Rightarrow> bool" where
  "isFinderPattern moduleCount r c =
     ((r < 7 \<and> c < 7) \<or>
      (r < 7 \<and> int moduleCount - 7 \<le> int c) \<or>
      (int moduleCount - 7 \<le> int r \<and> c < 7))"

function colLoop ::
  "BitMatrix \<Rightarrow> bool \<Rightarrow> (int \<times> int) option \<Rightarrow> rat \<Rightarrow> rat \<Rightarrow> rat \<Rightarrow> nat \<Rightarrow> nat
     \<Rightarrow> ModuleCall list" where
  "colLoop modules withLogo bounds offset qrOffY cellSize r c =
     (if c < bmSize modules then
        (if inLogoZone withLogo bounds r c then []
         else if isFinderPattern (bmSize modules) r c then []
         else if bmGet modules r c
           then [\<lparr>row = r, col = c, px = moduleX offset cellSize c,
                  py = moduleY qrOffY offset cellSize r\<rparr>]
           else [])
        @ colLoop modules withLogo bounds offset qrOffY cellSize r (Suc c)
      else [])"
  by pat_completeness auto
termination
  by (relation "measure (\<lambda>(modules, withLogo, bounds, offset, qrOffY, cellSize, r, c).
        bmSize modules - c)") auto

function rowLoop ::
  "BitMatrix \<Rightarrow> bool \<Rightarrow> (int \<times> int) option \<Rightarrow> rat \<Rightarrow> rat \<Rightarrow> rat \<Rightarrow> nat
     \<Rightarrow> ModuleCall list" where
  "rowLoop modules withLogo bounds offset qrOffY cellSize r =
     (if r < bmSize modules then
        colLoop modules withLogo bounds offset qrOffY cellSize r 0
        @ rowLoop modules withLogo bounds offset qrOffY cellSize (Suc r)
      else [])"
  by pat_completeness auto
termination
  by (relation "measure (\<lambda>(modules, withLogo, bounds, offset, qrOffY, cellSize, r).
        bmSize modules - r)") auto

text \<open>The loop equations are unfolded one iteration at a time, by hand.\<close>

declare colLoop.simps [simp del] rowLoop.simps [simp del]

definition dataModuleLoop ::
  "BitMatrix \<Rightarrow> bool \<Rightarrow> (int \<times> int) option \<Rightarrow> rat \<Rightarrow> rat \<Rightarrow> rat \<Rightarrow> ModuleCall list" where
  "dataModuleLoop modules withLogo bounds offset qrOffY cellSize =
     rowLoop modules withLogo bounds offset qrOffY cellSize 0"

section \<open>Rendering\<close>

text \<open>
  The canvas is modelled by the trace of the operations \<^verbatim>\<open>generateQR\<close> performs on it,
  in order. \<^verbatim>\<open>drawModule\<close> and \<^verbatim>\<open>drawFinderPattern\<close> are recorded as calls with their
  arguments; a clip is recorded with the path it is taken on.
\<close>

datatype CanvasOp =
  SetCanvasSize nat nat
  | SetFillStyle FillStyle
  | FillRect rat rat rat rat
  | DrawModule rat rat rat DotStyle
  | DrawFinderPattern rat rat rat EyeStyle
  | Save
  | ClipArc rat rat rat
  | ClipRoundRect rat rat rat rat rat
  | ClipRect rat rat rat rat
  | DrawImage string rat rat rat rat
  | Restore
  | SetFont rat string
  | SetTextAlign string
  | SetTextBaseline string
  | FillText string rat rat

text \<open>
  The width and the height of a canvas element are integer attributes (\<^verbatim>\<open>unsigned long\<close>):
  a number assigned to one of them is truncated towards zero and reduced modulo \<open>2^32\<close>,
  and a result above \<open>2^31 - 1\<close> is replaced by the default of the attribute (300 for
  the width, 150 for the height). For a value from 0 up to \<open>2^31 - 1\<close> that is its
  integer part.
\<close>

definition canvasDimension :: "rat \<Rightarrow> nat \<Rightarrow> nat" where
  "canvasDimension v fallback =
     (let n = (if v < 0 then - \<lfloor>- v\<rfloor> else \<lfloor>v\<rfloor>) mod 4294967296
      in if 2147483647 < n then fallback else nat n)"

text \<open>
  What \<^verbatim>\<open>generateQR\<close> takes from its surroundings: the encoder \<^verbatim>\<open>QRCode.create\<close>, which
  returns the module matrix or throws (\<open>None\<close>); whether the canvas element and its 2D
  context exist; whether the logo image loads (\<^verbatim>\<open>onload\<close>) or fails (\<^verbatim>\<open>onerror\<close>);
  what \<^verbatim>\<open>drawImage\<close> does with an image whose load failed; and \<^verbatim>\<open>toDataURL\<close>.
  \<^verbatim>\<open>drawImage\<close> of an image element in the broken state raises \<^verbatim>\<open>InvalidStateError\<close> in
  a browser that follows the HTML Standard and draws nothing in one that does not:
  \<open>brokenImageThrows\<close> says which.
\<close>

record Browser =
  qrCreate :: "string \<Rightarrow> ErrorLevel \<Rightarrow> BitMatrix option"
  canvasCurrent :: bool
  context2d :: bool
  logoImageLoads :: bool
  brokenImageThrows :: bool
  toDataURL :: "CanvasOp list \<Rightarrow> string"

text \<open>
  The result of one run: the canvas trace, the argument of \<^verbatim>\<open>setGeneratedBase64\<close> when
  it is called, and what the \<^verbatim>\<open>catch\<close> block writes with \<^verbatim>\<open>console.error\<close>.
\<close>

record Outcome =
  canvasOps :: "CanvasOp list"
  generatedSet :: "string option"
  consoleErrors :: "string list"

definition failureMessage :: string where
  "failureMessage = ''QR Generation failed''"

definition logoClip :: "LogoShape \<Rightarrow> rat \<Rightarrow> rat \<Rightarrow> rat \<Rightarrow> CanvasOp list" where
  "logoClip shape logoX logoY logoSizePx =
     (if shape = ShapeNone then []
      else if shape = ShapeCircle
        then [ClipArc (logoX + logoSizePx / 2) (logoY + logoSizePx / 2) (logoSizePx / 2)]
      else if shape = ShapeRounded
        then [ClipRoundRect logoX logoY logoSizePx logoSizePx (logoSizePx * (2 / 10))]
      else [ClipRect logoX logoY logoSizePx logoSizePx])"

definition labelOps :: "GeneratorState \<Rightarrow> CanvasOp list" where
  "labelOps st =
     (if labelText (label st) = [] then []
      else [SetFillStyle (Color (labelColor (label st))),
            SetFont (renderLabelSize st) (labelFont (label st)),
            SetTextAlign ''center'',
            SetTextBaseline ''middle'',
            FillText (labelText (label st)) (totalWidth st / 2)
              (if labelPosition (label st) = PosTop then extraHeight st / 2
               else qrSize st + extraHeight st / 2)])"

text \<open>Background, data modules and finder patterns, in the order they are painted.\<close>

definition paintCode :: "GeneratorState \<Rightarrow> BitMatrix \<Rightarrow> CanvasOp list" where
  "paintCode st modules =
     (let moduleCount = bmSize modules;
          cellSize = cellSizeOf (qrSize st) moduleCount;
          offset = margin * cellSize;
          bounds = logoBounds (hasLogo st) moduleCount (qrSize st) cellSize
      in [SetFillStyle (getFillStyle (totalWidth st) (totalHeight st) (bgColorMode (style st))
            (bgGradientType (style st)) (bgColor1 (style st)) (bgColor2 (style st))),
          FillRect 0 0 (totalWidth st) (totalHeight st),
          SetFillStyle (getFillStyle (qrSize st) (qrSize st) (fgColorMode (style st))
            (fgGradientType (style st)) (fgColor1 (style st)) (fgColor2 (style st)))]
         @ map (\<lambda>k. DrawModule (px k) (py k) cellSize (dotStyle (style st)))
             (dataModuleLoop modules (hasLogo st) bounds offset (qrOffsetY st) cellSize)
         @ [DrawFinderPattern offset (qrOffsetY st + offset) cellSize (eyeStyle (style st)),
            DrawFinderPattern (offset + (of_nat moduleCount - 7) * cellSize)
              (qrOffsetY st + offset) cellSize (eyeStyle (style st)),
            DrawFinderPattern offset
              (qrOffsetY st + offset + (of_nat moduleCount - 7) * cellSize) cellSize
              (eyeStyle (style st))])"

text \<open>The logo step up to the call of \<^verbatim>\<open>drawImage\<close>: \<^verbatim>\<open>save\<close> and the clip.\<close>

definition logoPrelude :: "GeneratorState \<Rightarrow> CanvasOp list" where
  "logoPrelude st =
     (let logoSizePx = qrSize st * (logoSize / 100);
          logoX = (qrSize st - logoSizePx) / 2;
          logoY = qrOffsetY st + (qrSize st - logoSizePx) / 2
      in Save # logoClip (logoShape st) logoX logoY logoSizePx)"

definition logoDraw :: "GeneratorState \<Rightarrow> CanvasOp" where
  "logoDraw st =
     (let logoSizePx = qrSize st * (logoSize / 100);
          logoX = (qrSize st - logoSizePx) / 2;
          logoY = qrOffsetY st + (qrSize st - logoSizePx) / 2
      in DrawImage (case logo st of None \<Rightarrow> [] | Some src \<Rightarrow> src)
           logoX logoY logoSizePx logoSizePx)"

text \<open>The label and the export, which end a run that did not throw.\<close>

definition finishRun :: "Browser \<Rightarrow> GeneratorState \<Rightarrow> CanvasOp list \<Rightarrow> Outcome" where
  "finishRun br st painted =
     (let drawn = painted @ labelOps st
      in \<lparr>canvasOps = drawn, generatedSet = Some (toDataURL br drawn), consoleErrors = []\<rparr>)"

definition generateQR :: "Browser \<Rightarrow> GeneratorState \<Rightarrow> Outcome" where
  "generateQR br st =
     (if textValue (content st) = []
      then \<lparr>canvasOps = [], generatedSet = Some [], consoleErrors = []\<rparr>
      else
        (case qrCreate br (textValue (content st)) (errorLevel st) of
           None \<Rightarrow> \<lparr>canvasOps = [], generatedSet = None, consoleErrors = [failureMessage]\<rparr>
         | Some modules \<Rightarrow>
             if \<not> canvasCurrent br
             then \<lparr>canvasOps = [], generatedSet = None, consoleErrors = []\<rparr>
             else if \<not> context2d br
             then \<lparr>canvasOps = [SetCanvasSize (canvasDimension (totalWidth st) 300)
                                (canvasDimension (totalHeight st) 150)],
                   generatedSet = None, consoleErrors = []\<rparr>
             else
               (let painted = SetCanvasSize (canvasDimension (totalWidth st) 300)
                                (canvasDimension (totalHeight st) 150)
                                # paintCode st modules
                in if hasLogo st then
                     (if logoImageLoads br
                      then finishRun br st (painted @ logoPrelude st @ [logoDraw st, Restore])
                      else if brokenImageThrows br
                      then \<lparr>canvasOps = painted @ logoPrelude st, generatedSet = None,
                            consoleErrors = [failureMessage]\<rparr>
                      else finishRun br st (painted @ logoPrelude st @ [Restore]))
                   else finishRun br st painted)))"

section \<open>Scan history\<close>

text \<open>
  \<^verbatim>\<open>handleScan\<close> of the application component. \<^verbatim>\<open>crypto.randomUUID()\<close> and the two reads
  of \<^verbatim>\<open>Date.now()\<close> (one for the new entry, one inside the state updater) are parameters.
  Timestamps are milliseconds.
\<close>

datatype ScanType = TypeUrl | TypeText | TypeWifi | TypeEmail | TypeOther

record ScanResult =
  scanId :: string
  scanData :: string
  timestamp :: int
  scanType :: ScanType
  aiSummary :: "string option"
  aiLoading :: "bool option"
  originalImage :: "string option"

record AppState =
  scannedHistory :: "ScanResult list"
  currentResult :: "ScanResult option"

definition startsWith :: "string \<Rightarrow> string \<Rightarrow> bool" where
  "startsWith s p = (take (length p) s = p)"

definition detectType :: "string \<Rightarrow> ScanType" where
  "detectType d =
     (if startsWith d ''http'' then TypeUrl
      else if startsWith d ''WIFI:'' then TypeWifi
      else if CHR ''@'' \<in> set d \<and> CHR ''.'' \<in> set d then TypeEmail
      else TypeText)"

definition makeScan :: "string \<Rightarrow> int \<Rightarrow> string \<Rightarrow> string option \<Rightarrow> ScanResult" where
  "makeScan uuid now d img =
     \<lparr>scanId = uuid, scanData = d, timestamp = now, scanType = detectType d,
      aiSummary = None, aiLoading = None, originalImage = img\<rparr>"

fun updateHistory :: "ScanResult \<Rightarrow> string \<Rightarrow> int \<Rightarrow> ScanResult list \<Rightarrow> ScanResult list" where
  "updateHistory newScan d now [] = [newScan]"
| "updateHistory newScan d now (p # ps) =
     (if scanData p = d \<and> now - timestamp p < 2000 then p # ps else newScan # p # ps)"

definition handleScan ::
  "string \<Rightarrow> int \<Rightarrow> int \<Rightarrow> string \<Rightarrow> string option \<Rightarrow> AppState \<Rightarrow> AppState" where
  "handleScan uuid nowCreated nowChecked d img st =
     (let newScan = makeScan uuid nowCreated d img
      in st\<lparr>scannedHistory := updateHistory newScan d nowChecked (scannedHistory st),
            currentResult := Some newScan\<rparr>)"

section \<open>Example inputs\<close>

text \<open>
  Concrete inputs for the worked instances below: the WiFi form of the specification's
  example, a state with content, output size 500 and a label of size 25 at the top, a
  state at level Q in which a logo file is picked, a version-1 matrix (side 21) with every module set, a browser in which
  everything succeeds, one in which the logo image fails to load, a state with content
  and a logo, and a scan history whose newest entry is 1500 ms older than the next scan.
\<close>

definition homeWifi :: GeneratorState where
  "homeWifi = initialState\<lparr>content := (content initialState)
      \<lparr>contentType := ContentWifi,
       wifiData := \<lparr>ssid = ''Home'', password = ''secret1'', encryption = WPA,
                    hidden = False\<rparr>\<rparr>\<rparr>"

definition labelledCode :: GeneratorState where
  "labelledCode = (setText ''hello'' initialState)\<lparr>label := (label initialState)
      \<lparr>labelText := ''Scan me'', labelPosition := PosTop, labelSize := 25\<rparr>,
      qrSize := 500\<rparr>"

definition pickedAtQ :: GeneratorState where
  "pickedAtQ = initialState\<lparr>errorLevel := LevelQ\<rparr>"

definition fullMatrix :: BitMatrix where
  "fullMatrix = \<lparr>bmSize = 21, bmGet = (\<lambda>r c. True)\<rparr>"

definition goodBrowser :: Browser where
  "goodBrowser =
     \<lparr>qrCreate = (\<lambda>t l. Some fullMatrix), canvasCurrent = True, context2d = True,
      logoImageLoads = True, brokenImageThrows = True,
      toDataURL = (\<lambda>drawn. ''data:image/png;base64,'')\<rparr>"

definition brokenLogoBrowser :: Browser where
  "brokenLogoBrowser = goodBrowser\<lparr>logoImageLoads := False\<rparr>"

definition logoState :: GeneratorState where
  "logoState =
     (setText ''hello'' initialState)\<lparr>logo := Some ''data:application/pdf;base64,JVBERg=='',
       errorLevel := LevelH\<rparr>"

definition oldScan :: ScanResult where
  "oldScan = makeScan ''id0'' 0 ''hello'' None"

definition oneScan :: AppState where
  "oneScan = \<lparr>scannedHistory = [oldScan], currentResult = Some oldScan\<rparr>"

section \<open>Properties of the fill resolver and the logo handlers\<close>

text \<open>
  C9. In solid mode \<^verbatim>\<open>getFillStyle\<close> returns the first colour, whatever the width, the
  height, the gradient type and the second colour are: two calls that differ only in the
  second colour and the gradient type return the same paint style.
\<close>

theorem getFillStyle_solid_ignores_second_color:
  "getFillStyle w h ModeSolid ty c1 c2 = Color c1 \<and>
   getFillStyle w h ModeSolid ty c1 c2 = getFillStyle w h ModeSolid ty' c1 c2'"
  by (simp add: getFillStyle_def)

text \<open>
  When the level is not changed between the pick and the end of the read, the callback
  tests the current level: it sets H from L and M and keeps Q and H, and it stores the
  logo. Removing the logo sets M from every level and clears the logo.
\<close>

lemma logo_policy_without_interleaving:
  "handleLogoUpload True st = Some (readerOnload (errorLevel st)) \<and>
   errorLevel (readerOnload (errorLevel st) u st)
     = (if errorLevel st = LevelL \<or> errorLevel st = LevelM then LevelH else errorLevel st) \<and>
   logo (readerOnload capturedLevel u st) = Some u \<and>
   errorLevel (removeLogoClick st) = LevelM \<and>
   logo (removeLogoClick st) = None"
  by (simp add: handleLogoUpload_def readerOnload_def removeLogoClick_def Let_def)

text \<open>
  C3. The claim is that a logo attached while the level is L or M sets the level to H.
  The code misses that when the level changes while the file is read: a file is picked
  at level Q, the select is set to L before the read completes, and the callback, which
  still tests Q, stores the logo and leaves the level at L.
\<close>

theorem stale_level_skips_upgrade:
  "errorLevel pickedAtQ = LevelQ \<and>
   errorLevel (selectErrorLevel LevelL pickedAtQ) = LevelL \<and>
   (case handleLogoUpload True pickedAtQ of
      None \<Rightarrow> False
    | Some onload \<Rightarrow>
        logo (onload ''data:image/png;base64,iVBORw=='' (selectErrorLevel LevelL pickedAtQ))
          = Some ''data:image/png;base64,iVBORw=='' \<and>
        errorLevel (onload ''data:image/png;base64,iVBORw=='' (selectErrorLevel LevelL pickedAtQ))
          = LevelL)"
  by (simp add: pickedAtQ_def initialState_def selectErrorLevel_def hasLogo_def
        handleLogoUpload_def readerOnload_def Let_def)

section \<open>Content template\<close>

text \<open>
  C4. In WiFi mode with a non-empty ssid the template effect sets the text to
  \<^verbatim>\<open>WIFI:T:<enc>;S:<ssid>;P:<password>;H:<hidden>;;\<close>, where the encryption field is empty
  for \<^verbatim>\<open>nopass\<close> and the name of the encryption otherwise, and the hidden flag is printed
  as \<^verbatim>\<open>true\<close> or \<^verbatim>\<open>false\<close>. The instance below is the example of the specification:
  ssid Home, password secret1, WPA, not hidden.
\<close>

theorem wifi_template_text:
  assumes "contentType (content st) = ContentWifi"
    and "ssid (wifiData (content st)) \<noteq> []"
  shows "textValue (content (templateEffect enc st)) =
           ''WIFI:T:'' @
           (if encryption (wifiData (content st)) = nopass then []
            else encryptionName (encryption (wifiData (content st)))) @
           '';S:'' @ ssid (wifiData (content st)) @
           '';P:'' @ password (wifiData (content st)) @
           '';H:'' @ (if hidden (wifiData (content st)) then ''true'' else ''false'') @ '';;''"
  using assms by (simp add: templateEffect_def setText_def wifiText_def showBool_def Let_def)

theorem wifi_template_witness:
  "contentType (content homeWifi) = ContentWifi \<and>
   ssid (wifiData (content homeWifi)) \<noteq> [] \<and>
   textValue (content (templateEffect (\<lambda>s. s) homeWifi)) = ''WIFI:T:WPA;S:Home;P:secret1;H:false;;''"
  using wifi_template_text [of homeWifi "\<lambda>s. s"]
  by (simp add: homeWifi_def initialState_def)

section \<open>Cell size\<close>

text \<open>
  C5. With the fixed margin of 2 modules, the cell size times the number of modules
  across the code and both margins is the output size, exactly, over the rationals and
  for every module count.
\<close>

theorem cell_size_times_modules:
  "cellSizeOf outSize moduleCount * (of_nat moduleCount + 2 * margin) = outSize"
proof -
  have "(of_nat moduleCount :: rat) + 4 \<noteq> 0"
    using of_nat_0_le_iff [of moduleCount, where ?'a = rat] by linarith
  then show ?thesis by (simp add: cellSizeOf_def margin_def)
qed

section \<open>Logo exclusion zone\<close>

lemma cellSizeOf_nonzero: "outSize \<noteq> 0 \<Longrightarrow> cellSizeOf outSize moduleCount \<noteq> 0"
proof -
  have "(of_nat moduleCount :: rat) + 4 \<noteq> 0"
    using of_nat_0_le_iff [of moduleCount, where ?'a = rat] by linarith
  then show "outSize \<noteq> 0 \<Longrightarrow> cellSizeOf outSize moduleCount \<noteq> 0"
    by (simp add: cellSizeOf_def margin_def)
qed

lemma adjustedSizeOf_odd: "odd (adjustedSizeOf k)"
  by (auto simp: adjustedSizeOf_def even_iff_mod_2_eq_zero odd_iff_mod_2_eq_one)

lemma floor_half_diff:
  assumes "odd (n::nat)" "odd (a::int)"
  shows "\<lfloor>(of_nat n :: rat) / 2 - of_int a / 2\<rfloor> = (int n - a) div 2"
proof -
  from assms have "even (int n - a)" by simp
  then obtain k where k: "int n - a = 2 * k" by (rule evenE)
  have "(of_nat n :: rat) / 2 - of_int a / 2 = of_int (int n - a) / 2"
    by (simp add: diff_divide_distrib)
  also have "\<dots> = of_int k" by (simp add: k)
  finally show ?thesis by (simp add: k)
qed

lemma ceiling_half_sum:
  assumes "odd (n::nat)" "odd (a::int)"
  shows "\<lceil>(of_nat n :: rat) / 2 + of_int a / 2\<rceil> = (int n + a) div 2"
proof -
  from assms have "even (int n + a)" by simp
  then obtain k where k: "int n + a = 2 * k" by (rule evenE)
  have "(of_nat n :: rat) / 2 + of_int a / 2 = of_int (int n + a) / 2"
    by (simp add: add_divide_distrib)
  also have "\<dots> = of_int k" by (simp add: k)
  finally show ?thesis by (simp add: k)
qed

lemma logoBounds_value:
  assumes "odd moduleCount" "cellSize \<noteq> 0"
  shows "logoBounds True moduleCount outSize cellSize =
           Some ((int moduleCount - adjustedSizeOf \<lceil>(outSize * (logoSize / 100)) / cellSize\<rceil>) div 2,
                 (int moduleCount + adjustedSizeOf \<lceil>(outSize * (logoSize / 100)) / cellSize\<rceil>) div 2)"
  unfolding logoBounds_def Let_def
  by (simp only: if_True if_False assms(2)
        floor_half_diff [OF assms(1) adjustedSizeOf_odd]
        ceiling_half_sum [OF assms(1) adjustedSizeOf_odd])

text \<open>
  C2. For an odd module count and a non-zero cell size, whatever the output size is, the
  logo bounds exist, their difference is odd, and the zone is centred: the centre module
  \<open>(N - 1) / 2\<close> is as far from the first module of the zone as the last module of the
  zone is from it.
\<close>

theorem logo_zone_odd_and_centered:
  assumes "odd moduleCount" "cellSize \<noteq> 0"
  shows "\<exists>logoStart logoEnd.
           logoBounds True moduleCount outSize cellSize = Some (logoStart, logoEnd) \<and>
           odd (logoEnd - logoStart) \<and>
           (int moduleCount - 1) div 2 - logoStart = (logoEnd - 1) - (int moduleCount - 1) div 2"
proof -
  let ?a = "adjustedSizeOf \<lceil>(outSize * (logoSize / 100)) / cellSize\<rceil>"
  let ?n = "int moduleCount"
  have n: "odd ?n" using assms(1) by simp
  have a: "odd ?a" by (rule adjustedSizeOf_odd)
  obtain i where i: "?n = 2 * i + 1" using n by (rule oddE)
  obtain j where j: "?a = 2 * j + 1" using a by (rule oddE)
  have s: "(?n - ?a) div 2 = i - j" unfolding i j by simp
  have e: "(?n + ?a) div 2 = i + j + 1" unfolding i j by simp
  have m: "(?n - 1) div 2 = i" unfolding i by simp
  have v: "logoBounds True moduleCount outSize cellSize = Some (i - j, i + j + 1)"
    using logoBounds_value [OF assms, of outSize] by (simp only: s e)
  have "odd ((i + j + 1) - (i - j))" by simp
  moreover have "i - (i - j) = (i + j + 1 - 1) - i" by simp
  ultimately show ?thesis
    unfolding v m by blast
qed

lemma cellSizeOf_example: "cellSizeOf 1000 21 = 40"
  by (simp add: cellSizeOf_def margin_def)

lemma ceiling_quarter_example: "\<lceil>(25::rat) / 4\<rceil> = 7"
  by (simp add: ceiling_eq_iff)

lemma logoBounds_example: "logoBounds True 21 1000 40 = Some (7, 14)"
  using logoBounds_value [of 21 40 1000]
  by (simp add: logoSize_def ceiling_quarter_example adjustedSizeOf_def)

theorem logo_zone_witness:
  "odd (21::nat) \<and> cellSizeOf 1000 21 \<noteq> 0 \<and>
   logoBounds True 21 1000 (cellSizeOf 1000 21) = Some (7, 14) \<and>
   odd (14 - 7 :: int) \<and>
   (int 21 - 1) div 2 - 7 = (14 - 1) - (int 21 - 1) div 2"
  using logo_zone_odd_and_centered [of 21 "cellSizeOf 1000 21" 1000]
  by (simp add: cellSizeOf_example logoBounds_example)

section \<open>Finder zones and the data-module loop\<close>

lemma colLoop_index:
  "k \<in> set (colLoop modules withLogo bounds offset qrOffY cellSize r c) \<Longrightarrow>
     row k = r \<and> c \<le> col k \<and> col k < bmSize modules \<and>
     \<not> isFinderPattern (bmSize modules) (row k) (col k) \<and>
     \<not> inLogoZone withLogo bounds (row k) (col k) \<and>
     bmGet modules (row k) (col k)"
proof (induction modules withLogo bounds offset qrOffY cellSize r c rule: colLoop.induct)
  case (1 modules withLogo bounds offset qrOffY cellSize r c)
  show ?case
  proof (cases "c < bmSize modules")
    case False
    with "1.prems" show ?thesis by (subst (asm) colLoop.simps) simp
  next
    case True
    from "1.prems" True
    consider (here) "k \<in> set (if inLogoZone withLogo bounds r c then []
         else if isFinderPattern (bmSize modules) r c then []
         else if bmGet modules r c
           then [\<lparr>row = r, col = c, px = moduleX offset cellSize c,
                  py = moduleY qrOffY offset cellSize r\<rparr>]
           else [])"
      | (later) "k \<in> set (colLoop modules withLogo bounds offset qrOffY cellSize r (Suc c))"
      by (subst (asm) colLoop.simps) auto
    then show ?thesis
    proof cases
      case here
      with True show ?thesis by (auto split: if_splits)
    next
      case later
      from "1.IH" [OF True later] show ?thesis by auto
    qed
  qed
qed

lemma rowLoop_index:
  "k \<in> set (rowLoop modules withLogo bounds offset qrOffY cellSize r) \<Longrightarrow>
     r \<le> row k \<and> row k < bmSize modules \<and> col k < bmSize modules \<and>
     \<not> isFinderPattern (bmSize modules) (row k) (col k) \<and>
     \<not> inLogoZone withLogo bounds (row k) (col k) \<and>
     bmGet modules (row k) (col k)"
proof (induction modules withLogo bounds offset qrOffY cellSize r rule: rowLoop.induct)
  case (1 modules withLogo bounds offset qrOffY cellSize r)
  show ?case
  proof (cases "r < bmSize modules")
    case False
    with "1.prems" show ?thesis by (subst (asm) rowLoop.simps) simp
  next
    case True
    from "1.prems" True
    consider (here) "k \<in> set (colLoop modules withLogo bounds offset qrOffY cellSize r 0)"
      | (later) "k \<in> set (rowLoop modules withLogo bounds offset qrOffY cellSize (Suc r))"
      by (subst (asm) rowLoop.simps) auto
    then show ?thesis
    proof cases
      case here
      from colLoop_index [OF here] True show ?thesis by auto
    next
      case later
      from "1.IH" [OF True later] show ?thesis by simp
    qed
  qed
qed

lemma colLoop_complete:
  assumes "c0 \<le> c" "c < bmSize modules"
    "\<not> inLogoZone withLogo bounds r c" "\<not> isFinderPattern (bmSize modules) r c"
    "bmGet modules r c"
  shows "\<lparr>row = r, col = c, px = moduleX offset cellSize c,
           py = moduleY qrOffY offset cellSize r\<rparr>
         \<in> set (colLoop modules withLogo bounds offset qrOffY cellSize r c0)"
  using assms
proof (induction modules withLogo bounds offset qrOffY cellSize r c0 rule: colLoop.induct)
  case (1 modules withLogo bounds offset qrOffY cellSize r c0)
  from "1.prems" have lt: "c0 < bmSize modules" by simp
  show ?case
  proof (cases "c0 = c")
    case True
    with "1.prems" lt show ?thesis by (subst colLoop.simps) simp
  next
    case False
    with "1.prems" have "Suc c0 \<le> c" by simp
    from "1.IH" [OF lt this "1.prems"(2-5)] lt show ?thesis
      by (subst colLoop.simps) simp
  qed
qed

lemma rowLoop_complete:
  assumes "r0 \<le> r" "r < bmSize modules" "c < bmSize modules"
    "\<not> inLogoZone withLogo bounds r c" "\<not> isFinderPattern (bmSize modules) r c"
    "bmGet modules r c"
  shows "\<lparr>row = r, col = c, px = moduleX offset cellSize c,
           py = moduleY qrOffY offset cellSize r\<rparr>
         \<in> set (rowLoop modules withLogo bounds offset qrOffY cellSize r0)"
  using assms
proof (induction modules withLogo bounds offset qrOffY cellSize r0 rule: rowLoop.induct)
  case (1 modules withLogo bounds offset qrOffY cellSize r0)
  from "1.prems" have lt: "r0 < bmSize modules" by simp
  show ?case
  proof (cases "r0 = r")
    case True
    have "\<lparr>row = r, col = c, px = moduleX offset cellSize c,
           py = moduleY qrOffY offset cellSize r\<rparr>
         \<in> set (colLoop modules withLogo bounds offset qrOffY cellSize r 0)"
      by (rule colLoop_complete) (use "1.prems" in simp_all)
    with True lt show ?thesis by (subst rowLoop.simps) simp
  next
    case False
    with "1.prems" have "Suc r0 \<le> r" by simp
    from "1.IH" [OF lt this "1.prems"(2-6)] lt show ?thesis
      by (subst rowLoop.simps) simp
  qed
qed

text \<open>
  C1. For a matrix of any side and any contents, any logo setting and bounds and any
  geometry, the loop issues no \<^verbatim>\<open>drawModule\<close> call for an index inside one of the three
  finder zones. The dot style is an argument of the call only and does not reach the loop.
\<close>

theorem finder_zones_never_drawn:
  assumes "isFinderPattern (bmSize modules) r c"
  shows "(r, c) \<notin> set (map (\<lambda>k. (row k, col k))
           (dataModuleLoop modules withLogo bounds offset qrOffY cellSize))"
proof
  assume "(r, c) \<in> set (map (\<lambda>k. (row k, col k))
           (dataModuleLoop modules withLogo bounds offset qrOffY cellSize))"
  then obtain k where k: "k \<in> set (rowLoop modules withLogo bounds offset qrOffY cellSize 0)"
    and rc: "row k = r" "col k = c"
    by (auto simp: dataModuleLoop_def)
  from rowLoop_index [OF k] rc assms show False by simp
qed

text \<open>
  An instance on the matrix of side 21 with every module set and no logo: the index
  \<open>(0, 20)\<close> lies in the top-right finder zone and is not drawn, while the index
  \<open>(8, 8)\<close>, outside every zone, is.
\<close>

theorem finder_zones_witness:
  "isFinderPattern (bmSize fullMatrix) 0 20 \<and>
   (0, 20) \<notin> set (map (\<lambda>k. (row k, col k))
      (dataModuleLoop fullMatrix False (Some (- 1, - 1)) 80 0 40)) \<and>
   (8, 8) \<in> set (map (\<lambda>k. (row k, col k))
      (dataModuleLoop fullMatrix False (Some (- 1, - 1)) 80 0 40))"
proof -
  have f: "isFinderPattern (bmSize fullMatrix) 0 20"
    by (simp add: fullMatrix_def isFinderPattern_def)
  have "\<lparr>row = 8, col = 8, px = moduleX 80 40 8, py = moduleY 0 80 40 8\<rparr>
          \<in> set (rowLoop fullMatrix False (Some (- 1, - 1)) 80 0 40 0)"
    by (rule rowLoop_complete) (simp_all add: fullMatrix_def isFinderPattern_def inLogoZone_def)
  then have "(\<lambda>k. (row k, col k)) \<lparr>row = 8, col = 8, px = moduleX 80 40 8, py = moduleY 0 80 40 8\<rparr>
      \<in> (\<lambda>k. (row k, col k)) ` set (dataModuleLoop fullMatrix False (Some (- 1, - 1)) 80 0 40)"
    unfolding dataModuleLoop_def by (rule imageI)
  then have d: "(8, 8) \<in> set (map (\<lambda>k. (row k, col k))
      (dataModuleLoop fullMatrix False (Some (- 1, - 1)) 80 0 40))"
    by simp
  from f d finder_zones_never_drawn [OF f, of False "Some (- 1, - 1)" 80 0 40]
  show ?thesis by simp
qed

section \<open>Runs of the renderer\<close>

text \<open>
  C8. With an empty content string \<^verbatim>\<open>generateQR\<close> calls \<^verbatim>\<open>setGeneratedBase64\<close> with the
  empty string and returns: nothing is drawn on the canvas and nothing reaches the
  \<^verbatim>\<open>catch\<close> block, in every browser.
\<close>

theorem empty_content_no_image:
  assumes "textValue (content st) = []"
  shows "generateQR br st = \<lparr>canvasOps = [], generatedSet = Some [], consoleErrors = []\<rparr>"
  using assms by (simp add: generateQR_def)

theorem empty_content_witness:
  "textValue (content initialState) = [] \<and>
   generateQR goodBrowser initialState =
     \<lparr>canvasOps = [], generatedSet = Some [], consoleErrors = []\<rparr>"
  using empty_content_no_image [of initialState goodBrowser]
  by (simp add: initialState_def)

text \<open>
  A run with a logo whose image fails to load. The result of the awaited promise is not
  read, so \<^verbatim>\<open>drawImage\<close> is called on the failed image. Where that throws, the run ends in
  the \<^verbatim>\<open>catch\<close> block after the clip, before the label and before \<^verbatim>\<open>setGeneratedBase64\<close>;
  where it does not, the run goes on without the image and writes nothing to the console.
\<close>

lemma generateQR_broken_logo:
  assumes "textValue (content st) \<noteq> []"
    and "qrCreate br (textValue (content st)) (errorLevel st) = Some modules"
    and "canvasCurrent br" "context2d br" "hasLogo st" "\<not> logoImageLoads br"
  shows "generateQR br st =
     (if brokenImageThrows br
      then \<lparr>canvasOps = SetCanvasSize (canvasDimension (totalWidth st) 300)
                           (canvasDimension (totalHeight st) 150) # paintCode st modules
                         @ logoPrelude st,
            generatedSet = None, consoleErrors = [failureMessage]\<rparr>
      else finishRun br st (SetCanvasSize (canvasDimension (totalWidth st) 300)
               (canvasDimension (totalHeight st) 150)
             # paintCode st modules @ logoPrelude st @ [Restore]))"
  using assms by (simp add: generateQR_def Let_def)

text \<open>
  C7. The claim is that a logo image that fails to load leaves the output image to be
  produced. In a browser that follows the HTML Standard it is not: for the state with
  content \<^verbatim>\<open>hello\<close> and a logo that is not an image, the run whose logo fails to load
  never calls \<^verbatim>\<open>setGeneratedBase64\<close> and logs the failure message, while the same state
  with a logo that loads sets the output.
\<close>

theorem broken_logo_blocks_output:
  "logoImageLoads brokenLogoBrowser = False \<and>
   hasLogo logoState \<and>
   generatedSet (generateQR brokenLogoBrowser logoState) = None \<and>
   consoleErrors (generateQR brokenLogoBrowser logoState) = [failureMessage] \<and>
   generatedSet (generateQR goodBrowser logoState) = Some ''data:image/png;base64,''"
  by (simp add: generateQR_def Let_def brokenLogoBrowser_def goodBrowser_def logoState_def
        setText_def initialState_def hasLogo_def finishRun_def)

section \<open>The label band on the canvas\<close>

lemma colLoop_position:
  "k \<in> set (colLoop modules withLogo bounds offset qrOffY cellSize r c) \<Longrightarrow>
     px k = moduleX offset cellSize (col k) \<and> py k = moduleY qrOffY offset cellSize (row k)"
proof (induction modules withLogo bounds offset qrOffY cellSize r c rule: colLoop.induct)
  case (1 modules withLogo bounds offset qrOffY cellSize r c)
  show ?case
  proof (cases "c < bmSize modules")
    case False
    with "1.prems" show ?thesis by (subst (asm) colLoop.simps) simp
  next
    case True
    from "1.prems" True
    consider (here) "k = \<lparr>row = r, col = c, px = moduleX offset cellSize c,
                          py = moduleY qrOffY offset cellSize r\<rparr>"
      | (later) "k \<in> set (colLoop modules withLogo bounds offset qrOffY cellSize r (Suc c))"
      by (subst (asm) colLoop.simps) (auto split: if_splits)
    then show ?thesis
    proof cases
      case here
      then show ?thesis by simp
    next
      case later
      from "1.IH" [OF True later] show ?thesis .
    qed
  qed
qed

lemma rowLoop_position:
  "k \<in> set (rowLoop modules withLogo bounds offset qrOffY cellSize r) \<Longrightarrow>
     px k = moduleX offset cellSize (col k) \<and> py k = moduleY qrOffY offset cellSize (row k)"
proof (induction modules withLogo bounds offset qrOffY cellSize r rule: rowLoop.induct)
  case (1 modules withLogo bounds offset qrOffY cellSize r)
  show ?case
  proof (cases "r < bmSize modules")
    case False
    with "1.prems" show ?thesis by (subst (asm) rowLoop.simps) simp
  next
    case True
    from "1.prems" True
    consider (here) "k \<in> set (colLoop modules withLogo bounds offset qrOffY cellSize r 0)"
      | (later) "k \<in> set (rowLoop modules withLogo bounds offset qrOffY cellSize (Suc r))"
      by (subst (asm) rowLoop.simps) auto
    then show ?thesis
    proof cases
      case here
      then show ?thesis by (rule colLoop_position)
    next
      case later
      from "1.IH" [OF True later] show ?thesis .
    qed
  qed
qed

lemma paintCode_modules:
  assumes "DrawModule x y s d \<in> set (paintCode st modules)"
  shows "s = cellSizeOf (qrSize st) (bmSize modules) \<and>
         (\<exists>r c. r < bmSize modules \<and> c < bmSize modules \<and>
            x = moduleX (margin * cellSizeOf (qrSize st) (bmSize modules))
                  (cellSizeOf (qrSize st) (bmSize modules)) c \<and>
            y = moduleY (qrOffsetY st) (margin * cellSizeOf (qrSize st) (bmSize modules))
                  (cellSizeOf (qrSize st) (bmSize modules)) r)"
proof -
  let ?cs = "cellSizeOf (qrSize st) (bmSize modules)"
  let ?loop = "rowLoop modules (hasLogo st)
                 (logoBounds (hasLogo st) (bmSize modules) (qrSize st) ?cs)
                 (margin * ?cs) (qrOffsetY st) ?cs 0"
  from assms obtain k where k: "k \<in> set ?loop"
    and v: "x = px k" "y = py k" "s = ?cs"
    by (auto simp: paintCode_def Let_def dataModuleLoop_def)
  from rowLoop_index [OF k] have b: "row k < bmSize modules" "col k < bmSize modules"
    by simp_all
  from rowLoop_position [OF k] v b show ?thesis by blast
qed

lemma paintCode_finders:
  "DrawFinderPattern (margin * cellSizeOf (qrSize st) (bmSize modules))
      (qrOffsetY st + margin * cellSizeOf (qrSize st) (bmSize modules))
      (cellSizeOf (qrSize st) (bmSize modules)) (eyeStyle (style st))
     \<in> set (paintCode st modules) \<and>
   DrawFinderPattern (margin * cellSizeOf (qrSize st) (bmSize modules)
        + (of_nat (bmSize modules) - 7) * cellSizeOf (qrSize st) (bmSize modules))
      (qrOffsetY st + margin * cellSizeOf (qrSize st) (bmSize modules))
      (cellSizeOf (qrSize st) (bmSize modules)) (eyeStyle (style st))
     \<in> set (paintCode st modules) \<and>
   DrawFinderPattern (margin * cellSizeOf (qrSize st) (bmSize modules))
      (qrOffsetY st + margin * cellSizeOf (qrSize st) (bmSize modules)
        + (of_nat (bmSize modules) - 7) * cellSizeOf (qrSize st) (bmSize modules))
      (cellSizeOf (qrSize st) (bmSize modules)) (eyeStyle (style st))
     \<in> set (paintCode st modules) \<and>
   FillRect 0 0 (totalWidth st) (totalHeight st) \<in> set (paintCode st modules)"
  by (simp add: paintCode_def Let_def)

lemma no_module_after_paint:
  "DrawModule x y s d \<notin> set (logoPrelude st)"
  "DrawModule x y s d \<notin> set (labelOps st)"
  "DrawModule x y s d \<noteq> logoDraw st"
  by (simp_all add: logoPrelude_def logoClip_def labelOps_def logoDraw_def Let_def)

text \<open>
  A run that reaches the 2D context sizes the canvas, paints the code and goes on with
  operations that draw no module.
\<close>

lemma generateQR_trace:
  assumes "textValue (content st) \<noteq> []"
    and "qrCreate br (textValue (content st)) (errorLevel st) = Some modules"
    and "canvasCurrent br" and "context2d br"
  shows "\<exists>rest. canvasOps (generateQR br st) =
           SetCanvasSize (canvasDimension (totalWidth st) 300)
             (canvasDimension (totalHeight st) 150) # paintCode st modules @ rest \<and>
           (\<forall>x y s d. DrawModule x y s d \<notin> set rest)"
proof -
  let ?head = "SetCanvasSize (canvasDimension (totalWidth st) 300)
                 (canvasDimension (totalHeight st) 150) # paintCode st modules"
  consider (loaded) "hasLogo st" "logoImageLoads br"
    | (thrown) "hasLogo st" "\<not> logoImageLoads br" "brokenImageThrows br"
    | (ignored) "hasLogo st" "\<not> logoImageLoads br" "\<not> brokenImageThrows br"
    | (plain) "\<not> hasLogo st"
    by blast
  then show ?thesis
  proof cases
    case loaded
    with assms have "canvasOps (generateQR br st)
        = ?head @ (logoPrelude st @ [logoDraw st, Restore] @ labelOps st)"
      by (simp add: generateQR_def finishRun_def Let_def)
    moreover have "\<forall>x y s d. DrawModule x y s d
        \<notin> set (logoPrelude st @ [logoDraw st, Restore] @ labelOps st)"
      using no_module_after_paint [of _ _ _ _ st] by auto
    ultimately show ?thesis by (metis append_Cons)
  next
    case thrown
    with assms have "canvasOps (generateQR br st) = ?head @ logoPrelude st"
      by (simp add: generateQR_def Let_def)
    moreover have "\<forall>x y s d. DrawModule x y s d \<notin> set (logoPrelude st)"
      using no_module_after_paint [of _ _ _ _ st] by auto
    ultimately show ?thesis by (metis append_Cons)
  next
    case ignored
    with assms have "canvasOps (generateQR br st)
        = ?head @ (logoPrelude st @ [Restore] @ labelOps st)"
      by (simp add: generateQR_def finishRun_def Let_def)
    moreover have "\<forall>x y s d. DrawModule x y s d
        \<notin> set (logoPrelude st @ [Restore] @ labelOps st)"
      using no_module_after_paint [of _ _ _ _ st] by auto
    ultimately show ?thesis by (metis append_Cons)
  next
    case plain
    with assms have "canvasOps (generateQR br st) = ?head @ labelOps st"
      by (simp add: generateQR_def finishRun_def Let_def)
    moreover have "\<forall>x y s d. DrawModule x y s d \<notin> set (labelOps st)"
      using no_module_after_paint [of _ _ _ _ st] by auto
    ultimately show ?thesis by (metis append_Cons)
  qed
qed

lemma canvasDimension_floor:
  assumes "0 \<le> v" "v < 2147483648"
  shows "canvasDimension v fallback = nat \<lfloor>v\<rfloor>"
proof -
  from assms(1) have lo: "0 \<le> \<lfloor>v\<rfloor>" by simp
  from assms(2) have hi: "\<lfloor>v\<rfloor> < 2147483648" by (simp add: floor_less_iff)
  from lo hi have "\<lfloor>v\<rfloor> mod 4294967296 = \<lfloor>v\<rfloor>" by simp
  with assms(1) hi show ?thesis
    by (simp add: canvasDimension_def Let_def not_less [symmetric])
qed

lemma floor_example: "\<lfloor>(2125::rat) / 4\<rfloor> = 531"
  by (simp add: floor_eq_iff)

lemma labelledCode_height: "totalHeight labelledCode = 2125 / 4"
  by (simp add: labelledCode_def setText_def initialState_def totalHeight_def extraHeight_def
        renderLabelSize_def scaleFactor_def)

lemma labelledCode_head:
  "hd (canvasOps (generateQR goodBrowser labelledCode)) = SetCanvasSize 500 531"
proof -
  have "hd (canvasOps (generateQR goodBrowser labelledCode))
          = SetCanvasSize (canvasDimension (totalWidth labelledCode) 300)
              (canvasDimension (totalHeight labelledCode) 150)"
    by (simp add: generateQR_def finishRun_def Let_def goodBrowser_def labelledCode_def
          setText_def initialState_def hasLogo_def)
  moreover have "canvasDimension (totalWidth labelledCode) 300 = 500"
    by (simp add: canvasDimension_floor totalWidth_def labelledCode_def setText_def
          initialState_def)
  moreover have "canvasDimension (totalHeight labelledCode) 150 = 531"
    by (simp add: canvasDimension_floor labelledCode_height floor_example)
  ultimately show ?thesis by simp
qed

text \<open>
  As the claim on the label band is stated, the canvas is as high as the output size plus
  2.5 times the scaled label size. For output size 500 and label size 25 that sum is
  531.25, and the canvas, whose height is an integer, is 531 high.
\<close>

theorem canvas_height_counterexample:
  "labelText (label labelledCode) \<noteq> [] \<and>
   hd (canvasOps (generateQR goodBrowser labelledCode)) = SetCanvasSize 500 531 \<and>
   (of_nat 531 :: rat) \<noteq>
     qrSize labelledCode
       + (5 / 2) * (labelSize (label labelledCode) * qrSize labelledCode / 1000)"
  by (simp add: labelledCode_head) (simp add: labelledCode_def setText_def initialState_def)

text \<open>
  C6, amended. Take a run that reaches the 2D context, with an output size that is a
  natural number \<open>w\<close> and, over the rationals, the band 0 without a label and 2.5 times
  the scaled label size (label size times \<open>w\<close> over 1000) with one. The run first sizes
  the canvas: the width is \<open>w\<close> and the height is the integer part of \<open>w\<close> plus the band.
  The background is filled over \<open>w\<close> by \<open>w\<close> plus the band. The three finder patterns and
  every data module are drawn on one square grid of cell size \<open>w / (N + 4)\<close> whose origin
  is 0 horizontally and the shift vertically, the shift being the band when the label is
  at the top and 0 otherwise (so for a non-zero band the code is shifted by the band
  exactly when the label is at the top); the grid with its two margins spans \<open>w\<close> in both
  directions.
\<close>

theorem label_band_on_canvas:
  assumes "textValue (content st) \<noteq> []"
    and "qrCreate br (textValue (content st)) (errorLevel st) = Some modules"
    and "canvasCurrent br" and "context2d br"
    and "qrSize st = of_nat w" and "0 \<le> labelSize (label st)"
    and "band = (if labelText (label st) = [] then 0
                 else (5 / 2) * (labelSize (label st) * of_nat w / 1000))"
    and "of_nat w + band < 2147483648"
    and "shift = (if labelPosition (label st) = PosTop then band else 0)"
    and "cs = of_nat w / (of_nat (bmSize modules) + 2 * margin)"
  shows "hd (canvasOps (generateQR br st)) = SetCanvasSize w (nat \<lfloor>of_nat w + band\<rfloor>) \<and>
    FillRect 0 0 (of_nat w) (of_nat w + band) \<in> set (canvasOps (generateQR br st)) \<and>
    DrawFinderPattern (margin * cs) (shift + margin * cs) cs (eyeStyle (style st))
      \<in> set (canvasOps (generateQR br st)) \<and>
    DrawFinderPattern (margin * cs + (of_nat (bmSize modules) - 7) * cs) (shift + margin * cs)
        cs (eyeStyle (style st))
      \<in> set (canvasOps (generateQR br st)) \<and>
    DrawFinderPattern (margin * cs) (shift + margin * cs + (of_nat (bmSize modules) - 7) * cs)
        cs (eyeStyle (style st))
      \<in> set (canvasOps (generateQR br st)) \<and>
    (\<forall>x y s d. DrawModule x y s d \<in> set (canvasOps (generateQR br st)) \<longrightarrow>
       s = cs \<and>
       (\<exists>r c. r < bmSize modules \<and> c < bmSize modules \<and>
          x = margin * cs + of_nat c * cs \<and> y = shift + margin * cs + of_nat r * cs)) \<and>
    (of_nat (bmSize modules) + 2 * margin) * cs = of_nat w"
proof -
  have e: "extraHeight st = band"
    using assms(5,7) by (simp add: extraHeight_def renderLabelSize_def scaleFactor_def)
  have q: "qrOffsetY st = shift"
    using assms(9) e by (auto simp: qrOffsetY_def extraHeight_def split: if_splits)
  have c: "cellSizeOf (qrSize st) (bmSize modules) = cs"
    using assms(5,10) by (simp add: cellSizeOf_def margin_def)
  have tw: "totalWidth st = of_nat w"
    using assms(5) by (simp add: totalWidth_def)
  have th: "totalHeight st = of_nat w + band"
    using assms(5) e by (simp add: totalHeight_def)
  have b0: "0 \<le> band"
    using assms(6,7) by simp
  have wlt: "(of_nat w :: rat) < 2147483648"
    using assms(8) b0 by linarith
  have dw: "canvasDimension (totalWidth st) 300 = w"
    using wlt by (simp add: tw canvasDimension_floor)
  have dh: "canvasDimension (totalHeight st) 150 = nat \<lfloor>of_nat w + band\<rfloor>"
    using assms(8) b0 by (simp add: th canvasDimension_floor)
  from generateQR_trace [OF assms(1-4)] obtain rest where
    ops: "canvasOps (generateQR br st) =
            SetCanvasSize w (nat \<lfloor>of_nat w + band\<rfloor>) # paintCode st modules @ rest"
    and clean: "\<forall>x y s d. DrawModule x y s d \<notin> set rest"
    unfolding dw dh by blast
  have painted: "set (paintCode st modules) \<subseteq> set (canvasOps (generateQR br st))"
    by (auto simp: ops)
  have 1: "hd (canvasOps (generateQR br st)) = SetCanvasSize w (nat \<lfloor>of_nat w + band\<rfloor>)"
    by (simp add: ops)
  note f = paintCode_finders [of st modules, unfolded c q tw th]
  have 2: "FillRect 0 0 (of_nat w) (of_nat w + band) \<in> set (canvasOps (generateQR br st))"
    using f painted by blast
  have 3: "DrawFinderPattern (margin * cs) (shift + margin * cs) cs (eyeStyle (style st))
      \<in> set (canvasOps (generateQR br st))"
    using f painted by blast
  have 4: "DrawFinderPattern (margin * cs + (of_nat (bmSize modules) - 7) * cs)
        (shift + margin * cs) cs (eyeStyle (style st))
      \<in> set (canvasOps (generateQR br st))"
    using f painted by blast
  have 5: "DrawFinderPattern (margin * cs)
        (shift + margin * cs + (of_nat (bmSize modules) - 7) * cs) cs (eyeStyle (style st))
      \<in> set (canvasOps (generateQR br st))"
    using f painted by blast
  have 6: "\<forall>x y s d. DrawModule x y s d \<in> set (canvasOps (generateQR br st)) \<longrightarrow>
       s = cs \<and>
       (\<exists>r c. r < bmSize modules \<and> c < bmSize modules \<and>
          x = margin * cs + of_nat c * cs \<and> y = shift + margin * cs + of_nat r * cs)"
  proof (intro allI impI)
    fix x y s d
    assume "DrawModule x y s d \<in> set (canvasOps (generateQR br st))"
    with clean have "DrawModule x y s d \<in> set (paintCode st modules)"
      by (auto simp: ops)
    from paintCode_modules [OF this, unfolded c q]
    show "s = cs \<and>
       (\<exists>r c. r < bmSize modules \<and> c < bmSize modules \<and>
          x = margin * cs + of_nat c * cs \<and> y = shift + margin * cs + of_nat r * cs)"
      by (simp add: moduleX_def moduleY_def)
  qed
  have nz: "(of_nat (bmSize modules) :: rat) + 4 \<noteq> 0"
    using of_nat_0_le_iff [of "bmSize modules", where ?'a = rat] by linarith
  have 7: "(of_nat (bmSize modules) + 2 * margin) * cs = of_nat w"
    using nz by (simp add: assms(10) margin_def)
  from 1 2 3 4 5 6 7 show ?thesis by blast
qed

text \<open>
  The run of the state with output size 500 and a label of size 25 at the top, on the
  matrix of side 21: the band is 31.25 and the cell size 20; the canvas is 500 by 531 and
  the top-left finder pattern is drawn at 40 across and 31.25 + 40 down.
\<close>

theorem label_band_witness:
  "textValue (content labelledCode) \<noteq> [] \<and>
   qrCreate goodBrowser (textValue (content labelledCode)) (errorLevel labelledCode)
     = Some fullMatrix \<and>
   canvasCurrent goodBrowser \<and> context2d goodBrowser \<and>
   qrSize labelledCode = of_nat 500 \<and> 0 \<le> labelSize (label labelledCode) \<and>
   (125 / 4 :: rat) = (5 / 2) * (labelSize (label labelledCode) * of_nat 500 / 1000) \<and>
   labelText (label labelledCode) \<noteq> [] \<and> labelPosition (label labelledCode) = PosTop \<and>
   (of_nat 500 + 125 / 4 :: rat) < 2147483648 \<and>
   (20 :: rat) = of_nat 500 / (of_nat (bmSize fullMatrix) + 2 * margin) \<and>
   hd (canvasOps (generateQR goodBrowser labelledCode)) = SetCanvasSize 500 531 \<and>
   DrawFinderPattern 40 (125 / 4 + 40) 20 EyeSquare
     \<in> set (canvasOps (generateQR goodBrowser labelledCode))"
proof -
  have s: "textValue (content labelledCode) = ''hello''" "qrSize labelledCode = 500"
    "labelSize (label labelledCode) = 25" "labelText (label labelledCode) = ''Scan me''"
    "labelPosition (label labelledCode) = PosTop" "errorLevel labelledCode = LevelM"
    "eyeStyle (style labelledCode) = EyeSquare"
    by (simp_all add: labelledCode_def setText_def initialState_def)
  have b: "qrCreate goodBrowser ''hello'' LevelM = Some fullMatrix"
    "canvasCurrent goodBrowser" "context2d goodBrowser"
    by (simp_all add: goodBrowser_def)
  have n: "bmSize fullMatrix = 21" by (simp add: fullMatrix_def)
  have g: "hd (canvasOps (generateQR goodBrowser labelledCode))
             = SetCanvasSize 500 (nat \<lfloor>of_nat 500 + (125 / 4 :: rat)\<rfloor>) \<and>
           DrawFinderPattern (margin * 20) (125 / 4 + margin * 20) 20
               (eyeStyle (style labelledCode))
             \<in> set (canvasOps (generateQR goodBrowser labelledCode))"
    using label_band_on_canvas [of labelledCode goodBrowser fullMatrix 500 "125 / 4" "125 / 4" 20]
    by (simp add: s b n margin_def)
  have "nat \<lfloor>of_nat 500 + (125 / 4 :: rat)\<rfloor> = 531"
    using floor_example by simp
  with g show ?thesis
    by (simp add: s b n margin_def)
qed

section \<open>Duplicate scans\<close>

text \<open>
  The last sentence of the claim on duplicate scans reads: two consecutive scans of the same code within 2 seconds give
  the same history as one. That fails when the first of the two was itself suppressed:
  the window is measured from the stored entry, which a suppressed scan does not renew.
  The newest entry is from time 0; a scan at 1500 ms is suppressed, and the next one,
  1500 ms later, is recorded.
\<close>

theorem repeated_scan_counterexample:
  "(3000::int) - 1500 < 2000 \<and>
   scannedHistory (handleScan ''id2'' 3000 3000 ''hello'' None
                     (handleScan ''id1'' 1500 1500 ''hello'' None oneScan))
     \<noteq> scannedHistory (handleScan ''id1'' 1500 1500 ''hello'' None oneScan)"
  by (simp add: handleScan_def Let_def oneScan_def oldScan_def makeScan_def)

text \<open>
  C10, amended. When the newest entry of the history has the payload of the new scan and
  is less than 2000 ms old at the time of the check, the history is unchanged; in every
  other case the new entry is put at the head. When a scan has been recorded, a scan of
  the same payload checked less than 2000 ms after the recorded entry's timestamp leaves
  the history as the first one left it.
\<close>

theorem duplicate_scan_suppressed:
  "(scannedHistory st = p # ps \<and> scanData p = d \<and> nowChecked - timestamp p < 2000 \<longrightarrow>
      scannedHistory (handleScan uuid nowCreated nowChecked d img st) = scannedHistory st) \<and>
   (\<not> (\<exists>q qs. scannedHistory st = q # qs \<and> scanData q = d \<and> nowChecked - timestamp q < 2000) \<longrightarrow>
      scannedHistory (handleScan uuid nowCreated nowChecked d img st)
        = makeScan uuid nowCreated d img # scannedHistory st) \<and>
   (scannedHistory (handleScan uuid nowCreated nowChecked d img st)
        = makeScan uuid nowCreated d img # scannedHistory st \<and>
    nowChecked' - nowCreated < 2000 \<longrightarrow>
      scannedHistory (handleScan uuid' nowCreated' nowChecked' d img'
                        (handleScan uuid nowCreated nowChecked d img st))
        = scannedHistory (handleScan uuid nowCreated nowChecked d img st))"
proof (intro conjI impI)
  assume "scannedHistory st = p # ps \<and> scanData p = d \<and> nowChecked - timestamp p < 2000"
  then show "scannedHistory (handleScan uuid nowCreated nowChecked d img st) = scannedHistory st"
    by (simp add: handleScan_def Let_def)
next
  assume n: "\<not> (\<exists>q qs. scannedHistory st = q # qs \<and> scanData q = d \<and> nowChecked - timestamp q < 2000)"
  show "scannedHistory (handleScan uuid nowCreated nowChecked d img st)
        = makeScan uuid nowCreated d img # scannedHistory st"
  proof (cases "scannedHistory st")
    case Nil
    then show ?thesis by (simp add: handleScan_def Let_def)
  next
    case (Cons q qs)
    with n show ?thesis by (auto simp: handleScan_def Let_def)
  qed
next
  assume a: "scannedHistory (handleScan uuid nowCreated nowChecked d img st)
        = makeScan uuid nowCreated d img # scannedHistory st \<and>
    nowChecked' - nowCreated < 2000"
  have "scannedHistory (handleScan uuid' nowCreated' nowChecked' d img'
                        (handleScan uuid nowCreated nowChecked d img st))
        = updateHistory (makeScan uuid' nowCreated' d img') d nowChecked'
            (scannedHistory (handleScan uuid nowCreated nowChecked d img st))"
    by (simp add: handleScan_def Let_def)
  also have "\<dots> = makeScan uuid nowCreated d img # scannedHistory st"
    using a by (simp add: makeScan_def)
  finally show "scannedHistory (handleScan uuid' nowCreated' nowChecked' d img'
                        (handleScan uuid nowCreated nowChecked d img st))
        = scannedHistory (handleScan uuid nowCreated nowChecked d img st)"
    using a by simp
qed

text \<open>
  On the history whose newest entry is from time 0: a scan of the same payload at
  1500 ms is suppressed, one at 2500 ms is recorded, and a further one at 3000 ms, 500 ms
  after the recorded one, is suppressed.
\<close>

theorem duplicate_scan_witness:
  "scannedHistory oneScan = [oldScan] \<and> scanData oldScan = ''hello'' \<and>
   (1500::int) - timestamp oldScan < 2000 \<and>
   scannedHistory (handleScan ''id1'' 1500 1500 ''hello'' None oneScan) = [oldScan] \<and>
   scannedHistory (handleScan ''id1'' 2500 2500 ''hello'' None oneScan)
     = [makeScan ''id1'' 2500 ''hello'' None, oldScan] \<and>
   scannedHistory (handleScan ''id2'' 3000 3000 ''hello'' None
                     (handleScan ''id1'' 2500 2500 ''hello'' None oneScan))
     = [makeScan ''id1'' 2500 ''hello'' None, oldScan]"
  using duplicate_scan_suppressed [of oneScan oldScan "[]" "''hello''" 1500 "''id1''" 1500 None]
    duplicate_scan_suppressed [of oneScan oldScan "[]" "''hello''" 2500 "''id1''" 2500 None 3000
       "''id2''" 3000 None]
  by (simp add: oneScan_def oldScan_def makeScan_def)

end
